theory Spec2Isabelle
  imports Main "HOL-Library.AList" "HOL-Library.Word"
begin

section \<open>Python values used by the log API\<close>

text \<open>
  A Python \<open>str\<close> is modelled as a \<open>string\<close>, one \<open>char\<close> per code point, so the
  lines covered are those whose code points lie below 256. Exceptions are values of
  the type \<open>error\<close>; a call that raises returns \<open>Inl\<close>, a call that returns gives \<open>Inr\<close>.
  A level is what \<open>parse_level\<close> returns: one of the three recognised strings, or
  Python's \<open>None\<close> when the function falls off its end. The specification calls the
  latter outcome UNKNOWN.
\<close>

datatype error =
    IndexError
  | JSONDecodeError
  | AttributeError
  | TypeError
  | DataError
  | ResponseError

type_synonym level = "string option"

abbreviation UNKNOWN :: level where
  "UNKNOWN \<equiv> None"

subsection \<open>\<open>str.strip()\<close> and \<open>str.split()\<close>\<close>

text \<open>
  With no argument both methods use the whitespace of \<open>str.isspace\<close>. Below code point
  256 that is: TAB, LF, VT, FF, CR, the four separators FS, GS, RS, US, the space,
  NEL (0x85) and the no-break space (0xA0).
\<close>

definition isspace :: "char \<Rightarrow> bool" where
  "isspace c \<longleftrightarrow>
     c \<in> {CHR 0x09, CHR 0x0A, CHR 0x0B, CHR 0x0C, CHR 0x0D,
          CHR 0x1C, CHR 0x1D, CHR 0x1E, CHR 0x1F, CHR 0x20, CHR 0x85, CHR 0xA0}"

definition str_strip :: "string \<Rightarrow> string" where
  "str_strip s = rev (dropWhile isspace (rev (dropWhile isspace s)))"

text \<open>
  \<open>split_from cur s\<close> scans \<open>s\<close> from the left with the token \<open>cur\<close> under construction:
  a whitespace character closes a non-empty token and is dropped, any other character
  extends the token. Runs of whitespace therefore produce no empty token.
\<close>

fun split_from :: "string \<Rightarrow> string \<Rightarrow> string list" where
  "split_from cur [] = (if cur = [] then [] else [cur])"
| "split_from cur (c # cs) =
     (if isspace c then (if cur = [] then split_from [] cs else cur # split_from [] cs)
      else split_from (cur @ [c]) cs)"

definition str_split :: "string \<Rightarrow> string list" where
  "str_split s = split_from [] s"

section \<open>The parsers of \<open>core.py\<close>\<close>

text \<open>
  \<open>PlainTextParser.parse_level\<close>: \<open>parts[2]\<close> raises \<open>IndexError\<close> when the list has at most
  two elements; a recognised level is returned, otherwise the method ends without a
  \<open>return\<close> and yields \<open>None\<close>.
\<close>

definition PlainTextParser_parse_level :: "string \<Rightarrow> error + level" where
  "PlainTextParser_parse_level line =
     (let parts = str_split (str_strip line) in
      if length parts \<le> 2 then Inl IndexError
      else
        let level = parts ! 2 in
        if level \<in> {''INFO'', ''WARNING'', ''ERROR''} then Inr (Some level)
        else Inr None)"

text \<open>
  The values \<open>json.loads\<close> can return. A float carries its 64 bits, a \<open>dict\<close> is the
  list of its items in insertion order (the keys of a decoded JSON object are strings).
\<close>

datatype pyval =
    PNone
  | PBool bool
  | PInt int
  | PFloat "64 word"
  | PStr string
  | PList "pyval list"
  | PDict "(string \<times> pyval) list"

text \<open>\<open>obj.get(key)\<close> on a \<open>dict\<close>: the value stored under the key, \<open>None\<close> without one.\<close>

definition dict_get :: "(string \<times> pyval) list \<Rightarrow> string \<Rightarrow> pyval" where
  "dict_get d k = (case map_of d k of None \<Rightarrow> PNone | Some v \<Rightarrow> v)"

text \<open>Membership in a \<open>set\<close> hashes the candidate first; lists and dicts have no hash.\<close>

fun hashable :: "pyval \<Rightarrow> bool" where
  "hashable (PList _) = False"
| "hashable (PDict _) = False"
| "hashable _ = True"

text \<open>
  \<open>JSONTextParser.parse_level\<close>. The decoder \<open>json.loads\<close> belongs to Python's standard
  library and is a parameter here: it either raises or returns a value. Only a \<open>dict\<close>
  has a method \<open>get\<close>; every other value raises \<open>AttributeError\<close>. The test
  \<open>level in {...}\<close> raises \<open>TypeError\<close> on an unhashable value and is true only of the
  three strings.
\<close>

definition JSONTextParser_parse_level ::
    "(string \<Rightarrow> error + pyval) \<Rightarrow> string \<Rightarrow> error + level" where
  "JSONTextParser_parse_level json_loads line =
     (case json_loads line of
        Inl e \<Rightarrow> Inl e
      | Inr obj \<Rightarrow>
          (case obj of
             PDict d \<Rightarrow>
               (let level = dict_get d ''level'' in
                if \<not> hashable level then Inl TypeError
                else
                  (case level of
                     PStr v \<Rightarrow>
                       if v \<in> {''INFO'', ''WARNING'', ''ERROR''} then Inr (Some v)
                       else Inr None
                   | _ \<Rightarrow> Inr None))
           | _ \<Rightarrow> Inl AttributeError))"

section \<open>The Redis server behind \<open>RedisCache\<close>\<close>

text \<open>
  \<open>RedisCache\<close> forwards every call to a client of the \<open>redis\<close> package. The server is
  the environment of the program; it is modelled with the four commands the program
  sends. A key holds a string and, optionally, the time at which it expires. Time is
  counted in seconds on the clock of the server; \<open>advance\<close> lets time pass between
  two commands, and no time passes within one. A key is live while the clock is
  before its expiry time; once that time has been reached every command treats the key
  as missing. Failures of the connection are left out, and keys and values are taken to
  be within the 512 MB the protocol allows.
\<close>

type_synonym entry = "string \<times> int option"

record redis =
  clock :: int
  keyspace :: "string \<rightharpoonup> entry"

definition advance :: "int \<Rightarrow> redis \<Rightarrow> redis" where
  "advance d r = r\<lparr>clock := clock r + d\<rparr>"

definition live :: "redis \<Rightarrow> string \<Rightarrow> entry option" where
  "live r k =
     (case keyspace r k of
        None \<Rightarrow> None
      | Some (v, None) \<Rightarrow> Some (v, None)
      | Some (v, Some t) \<Rightarrow> if clock r < t then Some (v, Some t) else None)"

subsection \<open>Decimal integers, as \<open>INCR\<close> reads and writes them\<close>

definition digit_of :: "char \<Rightarrow> int option" where
  "digit_of c = map_of (zip ''0123456789'' [0, 1, 2, 3, 4, 5, 6, 7, 8, 9]) c"

definition digit_char :: "nat \<Rightarrow> char" where
  "digit_char d = ''0123456789'' ! d"

fun digits_val :: "int \<Rightarrow> string \<Rightarrow> int option" where
  "digits_val acc [] = Some acc"
| "digits_val acc (c # cs) =
     (case digit_of c of None \<Rightarrow> None | Some d \<Rightarrow> digits_val (10 * acc + d) cs)"

text \<open>A non-empty run of digits with no leading zero, except for the single digit zero.\<close>

definition parse_digits :: "string \<Rightarrow> int option" where
  "parse_digits s =
     (if s = [] \<or> (hd s = CHR ''0'' \<and> tl s \<noteq> []) then None else digits_val 0 s)"

text \<open>The server accepts exactly the canonical decimal form of a signed 64-bit integer.\<close>

definition string2ll :: "string \<Rightarrow> int option" where
  "string2ll s =
     (if s \<noteq> [] \<and> hd s = CHR ''-'' then
        (case parse_digits (tl s) of
           None \<Rightarrow> None
         | Some n \<Rightarrow> if n = 0 \<or> 2 ^ 63 < n then None else Some (- n))
      else
        (case parse_digits s of
           None \<Rightarrow> None
         | Some n \<Rightarrow> if 2 ^ 63 \<le> n then None else Some n))"

fun nat_dec :: "nat \<Rightarrow> string" where
  "nat_dec n = (if n < 10 then [digit_char n] else nat_dec (n div 10) @ [digit_char (n mod 10)])"

declare nat_dec.simps [simp del]

definition ll2string :: "int \<Rightarrow> string" where
  "ll2string i = (if i < 0 then CHR ''-'' # nat_dec (nat (- i)) else nat_dec (nat i))"

subsection \<open>The commands\<close>

text \<open>\<open>GET\<close>: the string at a live key (the client decodes responses to \<open>str\<close>).\<close>

definition client_get :: "string \<Rightarrow> redis \<Rightarrow> (error + level) \<times> redis" where
  "client_get k r = (Inr (map_option fst (live r k)), r)"

text \<open>
  The server keeps an expiry time in milliseconds in a signed 64-bit integer and refuses,
  with an error reply, a timeout it cannot keep that way. For \<open>SETEX\<close> the seconds must
  be positive and at most \<open>LLONG_MAX / 1000\<close>, and the expiry time must not overflow. For
  \<open>EXPIRE\<close> the seconds may be negative but must lie between \<open>LLONG_MIN / 1000\<close> and
  \<open>LLONG_MAX / 1000\<close> (C division, which truncates), and the expiry time must not exceed
  \<open>LLONG_MAX\<close>. The client raises \<open>ResponseError\<close> on an error reply.
\<close>

definition setex_time_ok :: "redis \<Rightarrow> int \<Rightarrow> bool" where
  "setex_time_ok r seconds \<longleftrightarrow>
     0 < seconds \<and> seconds \<le> 9223372036854775
     \<and> 0 < seconds * 1000 + clock r * 1000
     \<and> seconds * 1000 + clock r * 1000 \<le> 2 ^ 63 - 1"

definition expire_time_ok :: "redis \<Rightarrow> int \<Rightarrow> bool" where
  "expire_time_ok r seconds \<longleftrightarrow>
     - 9223372036854775 \<le> seconds \<and> seconds \<le> 9223372036854775
     \<and> seconds * 1000 \<le> 2 ^ 63 - 1 - clock r * 1000"

text \<open>
  \<open>SETEX\<close>: the client refuses a value that is \<open>None\<close> with \<open>DataError\<close> before anything
  is sent; the server refuses a timeout that is not acceptable and otherwise stores the
  value with the expiry time now plus the seconds.
\<close>

definition client_setex :: "string \<Rightarrow> int \<Rightarrow> level \<Rightarrow> redis \<Rightarrow> (error + unit) \<times> redis" where
  "client_setex k ttl value r =
     (case value of
        None \<Rightarrow> (Inl DataError, r)
      | Some v \<Rightarrow>
          if \<not> setex_time_ok r ttl then (Inl ResponseError, r)
          else (Inr (), r\<lparr>keyspace := (keyspace r)(k \<mapsto> (v, Some (clock r + ttl)))\<rparr>))"

text \<open>
  \<open>INCR\<close>: a missing key counts as 0 and is created without expiry; an existing key keeps
  its expiry. A value that is not an integer, or the largest 64-bit integer, is an error.
\<close>

definition client_incr :: "string \<Rightarrow> redis \<Rightarrow> (error + int) \<times> redis" where
  "client_incr k r =
     (let (old, expiry) =
            (case live r k of None \<Rightarrow> (Some 0, None) | Some (v, e) \<Rightarrow> (string2ll v, e))
      in case old of
           None \<Rightarrow> (Inl ResponseError, r)
         | Some n \<Rightarrow>
             if n = 2 ^ 63 - 1 then (Inl ResponseError, r)
             else (Inr (n + 1),
                   r\<lparr>keyspace := (keyspace r)(k \<mapsto> (ll2string (n + 1), expiry))\<rparr>))"

text \<open>
  \<open>EXPIRE\<close>: the timeout is checked first, whether or not the key exists. On a live key
  the expiry time becomes now plus the given seconds (so a timeout that is not positive
  removes the key from view at once); the reply tells whether the key existed.
\<close>

definition client_expire :: "string \<Rightarrow> int \<Rightarrow> redis \<Rightarrow> (error + bool) \<times> redis" where
  "client_expire k seconds r =
     (if \<not> expire_time_ok r seconds then (Inl ResponseError, r)
      else
        (case live r k of
           None \<Rightarrow> (Inr False, r)
         | Some (v, _) \<Rightarrow>
             (Inr True, r\<lparr>keyspace := (keyspace r)(k \<mapsto> (v, Some (clock r + seconds)))\<rparr>)))"

subsection \<open>What a counter key holds\<close>

text \<open>
  The count \<open>INCR\<close> reads at a key (0 for a missing key, nothing for a value that is not
  an integer) and the expiry time pending on it.
\<close>

definition counter :: "redis \<Rightarrow> string \<Rightarrow> int option" where
  "counter r k = (case live r k of None \<Rightarrow> Some 0 | Some (v, e) \<Rightarrow> string2ll v)"

definition expiry :: "redis \<Rightarrow> string \<Rightarrow> int option" where
  "expiry r k = (case live r k of None \<Rightarrow> None | Some (v, e) \<Rightarrow> e)"

section \<open>The caches of \<open>cache.py\<close>\<close>

datatype cache = NoopCache | RedisCache

definition NoopCache_get :: "string \<Rightarrow> redis \<Rightarrow> (error + level) \<times> redis" where
  "NoopCache_get key r = (Inr None, r)"

definition NoopCache_set :: "string \<Rightarrow> level \<Rightarrow> int \<Rightarrow> redis \<Rightarrow> (error + unit) \<times> redis" where
  "NoopCache_set key value ttl_seconds r = (Inr (), r)"

definition NoopCache_allow :: "string \<Rightarrow> int \<Rightarrow> int \<Rightarrow> redis \<Rightarrow> (error + bool) \<times> redis" where
  "NoopCache_allow key limit window_seconds r = (Inr True, r)"

definition RedisCache_get :: "string \<Rightarrow> redis \<Rightarrow> (error + level) \<times> redis" where
  "RedisCache_get key r = client_get key r"

definition RedisCache_set :: "string \<Rightarrow> level \<Rightarrow> int \<Rightarrow> redis \<Rightarrow> (error + unit) \<times> redis" where
  "RedisCache_set key value ttl_seconds r = client_setex key ttl_seconds value r"

definition RedisCache_allow :: "string \<Rightarrow> int \<Rightarrow> int \<Rightarrow> redis \<Rightarrow> (error + bool) \<times> redis" where
  "RedisCache_allow key limit window_seconds r =
     (case client_incr key r of
        (Inl e, r1) \<Rightarrow> (Inl e, r1)
      | (Inr current, r1) \<Rightarrow>
          if current = 1 then
            (case client_expire key window_seconds r1 of
               (Inl e, r2) \<Rightarrow> (Inl e, r2)
             | (Inr _, r2) \<Rightarrow> (Inr (current \<le> limit), r2))
          else (Inr (current \<le> limit), r1))"

text \<open>Method dispatch on the class of the cache object.\<close>

definition cache_get :: "cache \<Rightarrow> string \<Rightarrow> redis \<Rightarrow> (error + level) \<times> redis" where
  "cache_get c = (case c of NoopCache \<Rightarrow> NoopCache_get | RedisCache \<Rightarrow> RedisCache_get)"

definition cache_set :: "cache \<Rightarrow> string \<Rightarrow> level \<Rightarrow> int \<Rightarrow> redis \<Rightarrow> (error + unit) \<times> redis" where
  "cache_set c = (case c of NoopCache \<Rightarrow> NoopCache_set | RedisCache \<Rightarrow> RedisCache_set)"

definition cache_allow :: "cache \<Rightarrow> string \<Rightarrow> int \<Rightarrow> int \<Rightarrow> redis \<Rightarrow> (error + bool) \<times> redis" where
  "cache_allow c = (case c of NoopCache \<Rightarrow> NoopCache_allow | RedisCache \<Rightarrow> RedisCache_allow)"

text \<open>
  \<open>line_cache_key\<close>: the hexadecimal SHA-256 digest of the UTF-8 bytes of the line,
  behind a fixed prefix. The digest comes from \<open>hashlib\<close> and is a parameter.
\<close>

definition line_cache_key :: "(string \<Rightarrow> string) \<Rightarrow> string \<Rightarrow> string" where
  "line_cache_key sha256_hexdigest line = ''loglevel:'' @ sha256_hexdigest line"

section \<open>\<open>LogAnalyser\<close>\<close>

text \<open>
  The object has four attributes. \<open>counts\<close> is a \<open>defaultdict(int)\<close>: the list of its
  items, a missing key reading as 0. The parser is any implementation of
  \<open>BaseParser.parse_level\<close>.
\<close>

record LogAnalyser =
  parser :: "string \<Rightarrow> error + level"
  cache :: "cache option"
  cache_ttl :: int
  counts :: "(level \<times> int) list"

definition LogAnalyser_init :: "(string \<Rightarrow> error + level) \<Rightarrow> cache option \<Rightarrow> int \<Rightarrow> LogAnalyser" where
  "LogAnalyser_init p c ttl = \<lparr>parser = p, cache = c, cache_ttl = ttl, counts = []\<rparr>"

text \<open>
  What a method call can change: the analyser itself, the server behind the cache, and
  the record of the calls made to the parser and to the cache, in the order they happen.
\<close>

datatype event =
    CacheGet string
  | ParserCall string
  | CacheSet string level int

record system =
  self :: LogAnalyser
  server :: redis
  calls :: "event list"

text \<open>
  The second half of \<open>process_line\<close>, from the call of the parser on: \<open>key\<close> is \<open>None\<close>
  when the analyser has no cache. An exception of the parser or of \<open>cache.set\<close> leaves
  the method at once.
\<close>

definition process_line_miss ::
    "string option \<Rightarrow> string \<Rightarrow> system \<Rightarrow> (error + level) \<times> system" where
  "process_line_miss key line s =
     (let s1 = s\<lparr>calls := calls s @ [ParserCall line]\<rparr> in
      case parser (self s) line of
        Inl e \<Rightarrow> (Inl e, s1)
      | Inr level \<Rightarrow>
          (case key of
             None \<Rightarrow> (Inr level, s1)
           | Some k \<Rightarrow>
               (case cache (self s) of
                  None \<Rightarrow> (Inl AttributeError, s1)
                | Some c \<Rightarrow>
                    (let (res, r2) = cache_set c k level (cache_ttl (self s)) (server s1);
                         s2 = s1\<lparr>server := r2,
                                 calls := calls s1 @ [CacheSet k level (cache_ttl (self s))]\<rparr>
                     in case res of
                          Inl e \<Rightarrow> (Inl e, s2)
                        | Inr _ \<Rightarrow> (Inr level, s2)))))"

definition process_line ::
    "(string \<Rightarrow> string) \<Rightarrow> string \<Rightarrow> system \<Rightarrow> (error + level) \<times> system" where
  "process_line sha256_hexdigest line s =
     (case cache (self s) of
        None \<Rightarrow> process_line_miss None line s
      | Some c \<Rightarrow>
          (let key = line_cache_key sha256_hexdigest line;
               (cached, r1) = cache_get c key (server s);
               s1 = s\<lparr>server := r1, calls := calls s @ [CacheGet key]\<rparr>
           in case cached of
                Inl e \<Rightarrow> (Inl e, s1)
              | Inr (Some v) \<Rightarrow> (Inr (Some v), s1)
              | Inr None \<Rightarrow> process_line_miss (Some key) line s1))"

text \<open>\<open>d[k] = d.get(k, 0) + 1\<close>, which is also what \<open>d[k] += 1\<close> does on a \<open>defaultdict(int)\<close>.\<close>

definition count_of :: "('k \<times> int) list \<Rightarrow> 'k \<Rightarrow> int" where
  "count_of d k = (case map_of d k of None \<Rightarrow> 0 | Some n \<Rightarrow> n)"

definition add_one :: "('k \<times> int) list \<Rightarrow> 'k \<Rightarrow> ('k \<times> int) list" where
  "add_one d k = AList.update k (count_of d k + 1) d"

text \<open>
  \<open>process_lines\<close>: the loop stops at the first line whose processing raises; otherwise
  the method returns a copy of the tally.
\<close>

fun process_lines_loop ::
    "(string \<Rightarrow> string) \<Rightarrow> string list \<Rightarrow> system \<Rightarrow> (error + unit) \<times> system" where
  "process_lines_loop h [] s = (Inr (), s)"
| "process_lines_loop h (line # lines) s =
     (case process_line h line s of
        (Inl e, s1) \<Rightarrow> (Inl e, s1)
      | (Inr level, s1) \<Rightarrow>
          process_lines_loop h lines
            (s1\<lparr>self := (self s1)\<lparr>counts := add_one (counts (self s1)) level\<rparr>\<rparr>))"

definition process_lines ::
    "(string \<Rightarrow> string) \<Rightarrow> string list \<Rightarrow> system \<Rightarrow> (error + (level \<times> int) list) \<times> system" where
  "process_lines h lines s =
     (case process_lines_loop h lines s of
        (Inl e, s1) \<Rightarrow> (Inl e, s1)
      | (Inr _, s1) \<Rightarrow> (Inr (counts (self s1)), s1))"



section \<open>The tally of the \<open>/batch\<close> endpoint in \<open>app.py\<close>\<close>

text \<open>
  \<open>asyncio.gather\<close> returns one level for each submitted line, in the order of the
  lines; the endpoint then counts them into a fresh \<open>dict\<close>.
\<close>

definition batch_counts :: "level list \<Rightarrow> (level \<times> int) list" where
  "batch_counts levels = foldl add_one [] levels"

section \<open>Configurations used in the examples\<close>

text \<open>
  A server with no key, and the system the handlers of \<open>app.py\<close> build for the mode
  \<open>plain\<close>: a fresh analyser around the plain-text parser with a time to live of 60.
  The examples use the identity in place of the digest; any function would do.
\<close>

definition fresh_server :: redis where
  "fresh_server = \<lparr>clock = 0, keyspace = Map.empty\<rparr>"

definition plain_system :: "cache option \<Rightarrow> system" where
  "plain_system c =
     \<lparr>self = LogAnalyser_init PlainTextParser_parse_level c 60,
      server = fresh_server, calls = []\<rparr>"

text \<open>The server after the level of the line \<open>a b INFO\<close> has been cached at time 0.\<close>

definition info_cached :: redis where
  "info_cached = fresh_server\<lparr>keyspace := [''loglevel:a b INFO'' \<mapsto> (''INFO'', Some 60)]\<rparr>"

text \<open>A batch of three lines for the plain-text parser, and its tally.\<close>

definition three_lines :: "string list" where
  "three_lines = [''2024-01-01 svcA INFO start'', ''2024-01-01 svcA ERROR fail'', ''x y DEBUG'']"

definition three_tally :: "(level \<times> int) list" where
  "three_tally = [(Some ''INFO'', 1), (Some ''ERROR'', 1), (UNKNOWN, 1)]"

text \<open>\<open>n\<close> calls of \<open>RedisCache.allow\<close> in a row, with no time passing between them.\<close>

fun allow_repeat :: "nat \<Rightarrow> string \<Rightarrow> int \<Rightarrow> int \<Rightarrow> redis \<Rightarrow> (error + bool) list \<times> redis" where
  "allow_repeat 0 key limit window r = ([], r)"
| "allow_repeat (Suc n) key limit window r =
     (case RedisCache_allow key limit window r of
        (b, r1) \<Rightarrow> (case allow_repeat n key limit window r1 of (bs, r2) \<Rightarrow> (b # bs, r2)))"

text \<open>
  The decoder on the lines of the examples of the structured parser: the five lines it
  decodes, with the values \<open>json.loads\<close> gives them. Every other line is rejected
  here, which is what \<open>json.loads\<close> does with \<open>garbage\<close>, the only such line the
  examples use.
\<close>

definition json_sample :: "string \<Rightarrow> error + pyval" where
  \<open>json_sample line =
     (if line = ''{"msg": "started"}'' then Inr (PDict [(''msg'', PStr ''started'')])
      else if line = ''{"level": "DEBUG"}'' then Inr (PDict [(''level'', PStr ''DEBUG'')])
      else if line = ''{"level": "ERROR"}'' then Inr (PDict [(''level'', PStr ''ERROR'')])
      else if line = ''{"level": ["ERROR"]}'' then Inr (PDict [(''level'', PList [PStr ''ERROR''])])
      else if line = ''["ERROR"]'' then Inr (PList [PStr ''ERROR''])
      else Inl JSONDecodeError)\<close>

section \<open>Properties of the plain-text parser\<close>

lemma split_from_dropWhile:
  "split_from [] (dropWhile isspace s) = split_from [] s"
  by (induction s) simp_all

lemma split_from_trailing_space:
  "\<forall>c \<in> set ws. isspace c \<Longrightarrow> split_from cur (s @ ws) = split_from cur s"
proof (induction s arbitrary: cur)
  case Nil
  then show ?case
    by (induction ws arbitrary: cur) simp_all
next
  case (Cons a s)
  then show ?case by simp
qed

lemma strip_decompose:
  "\<exists>ws. dropWhile isspace s = str_strip s @ ws \<and> (\<forall>c \<in> set ws. isspace c)"
proof -
  let ?t = "dropWhile isspace s"
  have "rev ?t = takeWhile isspace (rev ?t) @ dropWhile isspace (rev ?t)"
    by simp
  then have "?t = rev (dropWhile isspace (rev ?t)) @ rev (takeWhile isspace (rev ?t))"
    by (metis rev_append rev_rev_ident)
  moreover have "\<forall>c \<in> set (rev (takeWhile isspace (rev ?t))). isspace c"
    by (auto dest: set_takeWhileD)
  ultimately show ?thesis
    unfolding str_strip_def by blast
qed

lemma str_split_strip: "str_split (str_strip s) = str_split s"
proof -
  obtain ws where d: "dropWhile isspace s = str_strip s @ ws"
    and w: "\<forall>c \<in> set ws. isspace c"
    using strip_decompose by blast
  have "split_from [] (str_strip s) = split_from [] (str_strip s @ ws)"
    using w by (simp add: split_from_trailing_space)
  also have "\<dots> = split_from [] s"
    using d split_from_dropWhile by metis
  finally show ?thesis
    by (simp add: str_split_def)
qed

lemma parse_level_short_line:
  "length (str_split line) < 3 \<Longrightarrow> PlainTextParser_parse_level line = Inl IndexError"
  by (simp add: PlainTextParser_parse_level_def str_split_strip)

lemmas plain_eval = PlainTextParser_parse_level_def str_split_def str_strip_def isspace_def

text \<open>
  C7. A plain-text line with at least three whitespace-separated tokens: \<open>parse_level\<close>
  returns the third token when it is INFO, WARNING or ERROR, and UNKNOWN (Python's
  \<open>None\<close>) when it is anything else. The tokens are those of the line itself; stripping
  the line first does not change them.
\<close>

theorem plain_parse_level_third_token:
  assumes "3 \<le> length (str_split line)"
  shows "PlainTextParser_parse_level line =
     Inr (if str_split line ! 2 \<in> {''INFO'', ''WARNING'', ''ERROR''}
          then Some (str_split line ! 2) else UNKNOWN)"
  using assms by (simp add: PlainTextParser_parse_level_def str_split_strip Let_def)

theorem plain_parse_level_third_token_witness:
  "3 \<le> length (str_split ''2024-01-01 svcA ERROR fail'')
   \<and> str_split ''2024-01-01 svcA ERROR fail'' ! 2 = ''ERROR''
   \<and> PlainTextParser_parse_level ''2024-01-01 svcA ERROR fail'' = Inr (Some ''ERROR'')
   \<and> 3 \<le> length (str_split ''x y DEBUG'')
   \<and> PlainTextParser_parse_level ''x y DEBUG'' = Inr UNKNOWN"
  using plain_parse_level_third_token [of "''2024-01-01 svcA ERROR fail''"]
        plain_parse_level_third_token [of "''x y DEBUG''"]
  by (simp add: str_split_def isspace_def)

text \<open>
  C1. The claim asks for UNKNOWN, and no exception, on a line with fewer than three
  tokens. The line \<open>garbage\<close> has one token, and \<open>parse_level\<close> raises \<open>IndexError\<close> on
  it, as it does on every such line (\<open>parse_level_short_line\<close>).
\<close>

theorem plain_parse_level_garbage:
  "str_split ''garbage'' = [''garbage''] \<and>
   PlainTextParser_parse_level ''garbage'' = Inl IndexError"
  by (simp add: plain_eval)

section \<open>Properties of the structured parser\<close>

text \<open>
  Where the structured parser does return: on a decoded object whose value under
  \<open>level\<close> is hashable the result is that value when it is one of the three levels and
  UNKNOWN otherwise, in particular when the key is missing.
\<close>

lemma json_parse_level_dict:
  assumes "json_loads line = Inr (PDict d)" and "hashable (dict_get d ''level'')"
  shows "JSONTextParser_parse_level json_loads line =
           Inr (case dict_get d ''level'' of
                  PStr v \<Rightarrow> if v \<in> {''INFO'', ''WARNING'', ''ERROR''} then Some v else UNKNOWN
                | _ \<Rightarrow> UNKNOWN)"
  using assms by (simp add: JSONTextParser_parse_level_def split: pyval.splits)

lemma json_parse_level_missing_level:
  assumes "json_loads line = Inr (PDict d)" and "map_of d ''level'' = None"
  shows "JSONTextParser_parse_level json_loads line = Inr UNKNOWN"
  using assms by (simp add: JSONTextParser_parse_level_def dict_get_def)

lemma json_parse_level_examples:
  \<open>JSONTextParser_parse_level json_sample ''{"level": "ERROR"}'' = Inr (Some ''ERROR'')\<close>
  \<open>JSONTextParser_parse_level json_sample ''{"level": "DEBUG"}'' = Inr UNKNOWN\<close>
  \<open>JSONTextParser_parse_level json_sample ''{"msg": "started"}'' = Inr UNKNOWN\<close>
  by (simp_all add: JSONTextParser_parse_level_def json_sample_def dict_get_def)

text \<open>
  C2. The claim asks for UNKNOWN, and no exception, on every malformed line. The parser
  has no handler: an exception of \<open>json.loads\<close> leaves \<open>parse_level\<close> as it is, a
  decoded value that is not an object raises \<open>AttributeError\<close> at \<open>obj.get\<close>, and a
  list or an object under \<open>level\<close> raises \<open>TypeError\<close> at the membership test.
\<close>

theorem json_parse_level_raises:
  "(json_loads line = Inl e \<longrightarrow> JSONTextParser_parse_level json_loads line = Inl e)
   \<and> (json_loads line = Inr obj \<and> (\<forall>d. obj \<noteq> PDict d) \<longrightarrow>
        JSONTextParser_parse_level json_loads line = Inl AttributeError)
   \<and> (json_loads line = Inr (PDict d) \<and> \<not> hashable (dict_get d ''level'') \<longrightarrow>
        JSONTextParser_parse_level json_loads line = Inl TypeError)"
  by (auto simp: JSONTextParser_parse_level_def split: pyval.splits)

theorem json_parse_level_raises_witness:
  \<open>json_sample ''garbage'' = Inl JSONDecodeError
   \<and> JSONTextParser_parse_level json_sample ''garbage'' = Inl JSONDecodeError
   \<and> json_sample ''["ERROR"]'' = Inr (PList [PStr ''ERROR''])
   \<and> JSONTextParser_parse_level json_sample ''["ERROR"]'' = Inl AttributeError
   \<and> json_sample ''{"level": ["ERROR"]}'' = Inr (PDict [(''level'', PList [PStr ''ERROR''])])
   \<and> \<not> hashable (dict_get [(''level'', PList [PStr ''ERROR''])] ''level'')
   \<and> JSONTextParser_parse_level json_sample ''{"level": ["ERROR"]}'' = Inl TypeError\<close>
proof -
  have g: \<open>json_sample ''garbage'' = Inl JSONDecodeError\<close>
    and l: \<open>json_sample ''["ERROR"]'' = Inr (PList [PStr ''ERROR''])\<close>
    and u: \<open>json_sample ''{"level": ["ERROR"]}'' = Inr (PDict [(''level'', PList [PStr ''ERROR''])])\<close>
    by (simp_all add: json_sample_def)
  have h: "\<not> hashable (dict_get [(''level'', PList [PStr ''ERROR''])] ''level'')"
    by (simp add: dict_get_def)
  show ?thesis
    using json_parse_level_raises [of json_sample "''garbage''" JSONDecodeError]
          json_parse_level_raises [of json_sample \<open>''["ERROR"]''\<close> _ "PList [PStr ''ERROR'']"]
          json_parse_level_raises [of json_sample \<open>''{"level": ["ERROR"]}''\<close> _ _
             "[(''level'', PList [PStr ''ERROR''])]"]
    by (simp add: g l u h)
qed

section \<open>Evaluation of the examples\<close>

lemmas redis_eval = cache_get_def cache_set_def RedisCache_get_def RedisCache_set_def
  client_get_def client_setex_def live_def

lemma plain_system_fields:
  "cache (self (plain_system c)) = c"
  "cache_ttl (self (plain_system c)) = 60"
  "parser (self (plain_system c)) = PlainTextParser_parse_level"
  "counts (self (plain_system c)) = []"
  "server (plain_system c) = fresh_server"
  "calls (plain_system c) = []"
  by (simp_all add: plain_system_def LogAnalyser_init_def)

lemma key_a_b_INFO: "line_cache_key (\<lambda>l. l) ''a b INFO'' = ''loglevel:a b INFO''"
  by (simp add: line_cache_key_def)

lemma parse_a_b_INFO: "PlainTextParser_parse_level ''a b INFO'' = Inr (Some ''INFO'')"
  by (simp add: plain_eval)

lemma key_a_b_DEBUG: "line_cache_key (\<lambda>l. l) ''a b DEBUG'' = ''loglevel:a b DEBUG''"
  by (simp add: line_cache_key_def)

lemma parse_a_b_DEBUG: "PlainTextParser_parse_level ''a b DEBUG'' = Inr UNKNOWN"
  by (simp add: plain_eval)

lemma get_fresh: "cache_get RedisCache k fresh_server = (Inr None, fresh_server)"
  by (simp add: fresh_server_def redis_eval)

lemma set_fresh_INFO:
  "cache_set RedisCache ''loglevel:a b INFO'' (Some ''INFO'') 60 fresh_server =
     (Inr (), info_cached)"
  by (simp add: fresh_server_def info_cached_def redis_eval setex_time_ok_def)

lemma get_info_cached:
  "cache_get RedisCache ''loglevel:a b INFO'' info_cached = (Inr (Some ''INFO''), info_cached)"
  by (simp add: fresh_server_def info_cached_def redis_eval)

lemma process_line_plain_no_cache:
  "cache (self s) = None \<Longrightarrow> parser (self s) = PlainTextParser_parse_level \<Longrightarrow>
   PlainTextParser_parse_level line = Inr level \<Longrightarrow>
   process_line h line s = (Inr level, s\<lparr>calls := calls s @ [ParserCall line]\<rparr>)"
  by (simp add: process_line_def process_line_miss_def)

lemma parse_three:
  "PlainTextParser_parse_level ''2024-01-01 svcA INFO start'' = Inr (Some ''INFO'')"
  "PlainTextParser_parse_level ''2024-01-01 svcA ERROR fail'' = Inr (Some ''ERROR'')"
  "PlainTextParser_parse_level ''x y DEBUG'' = Inr UNKNOWN"
  by (simp_all add: plain_eval)

lemma length_three_lines: "length three_lines = 3"
  by (simp add: three_lines_def)

lemma process_three_lines:
  "process_lines (\<lambda>l. l) three_lines (plain_system None) =
     (Inr three_tally,
      (plain_system None)
        \<lparr>self := (self (plain_system None))\<lparr>counts := three_tally\<rparr>,
         calls := map ParserCall three_lines\<rparr>)"
  by (simp add: process_lines_def three_lines_def three_tally_def process_line_plain_no_cache
        parse_three plain_system_fields add_one_def count_of_def)

section \<open>Properties of the Redis commands\<close>

subsection \<open>Writing a number and reading it back\<close>

lemma lt_10_cases:
  "d < 10 \<Longrightarrow> d \<in> {0, 1, 2, 3, 4, 5, 6, 7, 8, 9::nat}"
  by auto

lemma digit_of_digit_char: "d < 10 \<Longrightarrow> digit_of (digit_char d) = Some (int d)"
  by (drule lt_10_cases) (auto simp: digit_of_def digit_char_def)

lemma digit_char_zero: "d < 10 \<Longrightarrow> digit_char d = CHR ''0'' \<Longrightarrow> d = 0"
  by (drule lt_10_cases) (auto simp: digit_char_def)

lemma digit_char_not_minus: "d < 10 \<Longrightarrow> digit_char d \<noteq> CHR ''-''"
  by (drule lt_10_cases) (auto simp: digit_char_def)

lemma digits_val_snoc:
  "digits_val acc (xs @ [c]) =
     (case digits_val acc xs of
        None \<Rightarrow> None
      | Some a \<Rightarrow> (case digit_of c of None \<Rightarrow> None | Some d \<Rightarrow> Some (10 * a + d)))"
  by (induction xs arbitrary: acc) (auto split: option.splits)

lemma nat_dec_nonempty: "nat_dec n \<noteq> []"
  by (subst nat_dec.simps) simp

lemma digits_val_nat_dec: "digits_val 0 (nat_dec n) = Some (int n)"
proof (induction n rule: nat_dec.induct)
  case (1 n)
  show ?case
  proof (cases "n < 10")
    case True
    then show ?thesis
      by (subst nat_dec.simps) (simp add: digit_of_digit_char)
  next
    case False
    have "int n = 10 * int (n div 10) + int (n mod 10)"
      by presburger
    with False 1 show ?thesis
      by (subst nat_dec.simps) (simp add: digits_val_snoc digit_of_digit_char)
  qed
qed

lemma hd_nat_dec_zero: "hd (nat_dec n) = CHR ''0'' \<Longrightarrow> n = 0"
proof (induction n rule: nat_dec.induct)
  case (1 n)
  show ?case
  proof (cases "n < 10")
    case True
    with "1.prems" show ?thesis
      by (subst (asm) nat_dec.simps) (simp add: digit_char_zero)
  next
    case False
    with "1.prems" have "hd (nat_dec (n div 10)) = CHR ''0''"
      by (subst (asm) nat_dec.simps) (simp add: nat_dec_nonempty)
    with False 1 have "n div 10 = 0" by simp
    with False show ?thesis by simp
  qed
qed

lemma hd_nat_dec_not_minus: "hd (nat_dec n) \<noteq> CHR ''-''"
proof (induction n rule: nat_dec.induct)
  case (1 n)
  show ?case
  proof (cases "n < 10")
    case True
    then show ?thesis
      by (subst nat_dec.simps) (simp add: digit_char_not_minus)
  next
    case False
    with 1 show ?thesis
      by (subst nat_dec.simps) (simp add: nat_dec_nonempty)
  qed
qed

lemma nat_dec_0: "nat_dec 0 = ''0''"
  by (subst nat_dec.simps) (simp add: digit_char_def)

lemma parse_digits_nat_dec: "parse_digits (nat_dec n) = Some (int n)"
proof (cases "n = 0")
  case True
  then show ?thesis
    by (simp add: parse_digits_def nat_dec_0 digit_of_def)
next
  case False
  then have "hd (nat_dec n) \<noteq> CHR ''0''"
    using hd_nat_dec_zero by blast
  then show ?thesis
    by (simp add: parse_digits_def nat_dec_nonempty digits_val_nat_dec)
qed

lemma string2ll_ll2string:
  assumes "- (2 ^ 63) \<le> i" and "i < 2 ^ 63"
  shows "string2ll (ll2string i) = Some i"
proof (cases "i < 0")
  case True
  with assms show ?thesis
    by (simp add: string2ll_def ll2string_def parse_digits_nat_dec)
next
  case False
  with assms show ?thesis
    by (simp add: string2ll_def ll2string_def parse_digits_nat_dec nat_dec_nonempty
          hd_nat_dec_not_minus)
qed

lemma digit_of_nonneg: "digit_of c = Some d \<Longrightarrow> 0 \<le> d"
  by (auto simp: digit_of_def split: if_splits)

lemma digits_val_nonneg: "0 \<le> acc \<Longrightarrow> digits_val acc s = Some n \<Longrightarrow> 0 \<le> n"
proof (induction s arbitrary: acc)
  case Nil
  then show ?case by simp
next
  case (Cons c s)
  then obtain d where d: "digit_of c = Some d" and r: "digits_val (10 * acc + d) s = Some n"
    by (auto split: option.splits)
  from d have "0 \<le> d" by (rule digit_of_nonneg)
  with Cons.prems(1) have "0 \<le> 10 * acc + d" by simp
  then show ?case using r by (rule Cons.IH)
qed

lemma parse_digits_nonneg: "parse_digits s = Some n \<Longrightarrow> 0 \<le> n"
  using digits_val_nonneg [of 0 s n] by (simp add: parse_digits_def split: if_splits)

lemma string2ll_range:
  "string2ll s = Some n \<Longrightarrow> - (2 ^ 63) \<le> n \<and> n < 2 ^ 63"
  by (auto simp: string2ll_def split: if_splits option.splits dest: parse_digits_nonneg)

subsection \<open>One call of \<open>allow\<close>\<close>

lemma ll2string_1: "ll2string 1 = ''1''"
  by (simp add: ll2string_def nat_dec.simps digit_char_def)

lemma live_after_write:
  "live (r\<lparr>keyspace := (keyspace r)(k \<mapsto> (v, e))\<rparr>) k =
     (case e of None \<Rightarrow> Some (v, None) | Some t \<Rightarrow> if clock r < t then Some (v, Some t) else None)"
  by (simp add: live_def split: option.splits)

lemma live_expiry_pending:
  "live r k = Some (v, Some t) \<Longrightarrow> clock r < t"
  by (auto simp: live_def split: option.splits if_splits)

lemma client_incr_counter:
  assumes "counter r key = Some n" and "n < 2 ^ 63 - 1"
  shows "client_incr key r =
           (Inr (n + 1), r\<lparr>keyspace := (keyspace r)(key \<mapsto> (ll2string (n + 1), expiry r key))\<rparr>)"
  using assms
  by (auto simp: client_incr_def counter_def expiry_def split: option.splits)

lemma live_after_incr:
  "live (r\<lparr>keyspace := (keyspace r)(key \<mapsto> (v, expiry r key))\<rparr>) key = Some (v, expiry r key)"
  by (auto simp: live_after_write expiry_def split: option.splits dest: live_expiry_pending)

lemma expire_time_ok_keyspace [simp]:
  "expire_time_ok (r\<lparr>keyspace := f\<rparr>) seconds = expire_time_ok r seconds"
  by (simp add: expire_time_ok_def)

lemma RedisCache_allow_counter:
  assumes "counter r key = Some n" and "n < 2 ^ 63 - 1"
    and "n = 0 \<longrightarrow> expire_time_ok r window"
  shows "RedisCache_allow key limit window r =
           (Inr (n + 1 \<le> limit),
            r\<lparr>keyspace := (keyspace r)(key \<mapsto>
                 (ll2string (n + 1),
                  if n + 1 = 1 then Some (clock r + window) else expiry r key))\<rparr>)"
  using assms
  by (simp add: RedisCache_allow_def client_incr_counter client_expire_def live_after_incr)

text \<open>
  A timeout the server refuses: \<open>INCR\<close> has counted by then, so the exception leaves
  the counter at 1 with the expiry it had, none on a fresh key.
\<close>

lemma RedisCache_allow_expire_refused:
  assumes "counter r key = Some 0" and "\<not> expire_time_ok r window"
  shows "RedisCache_allow key limit window r =
           (Inl ResponseError,
            r\<lparr>keyspace := (keyspace r)(key \<mapsto> (ll2string 1, expiry r key))\<rparr>)"
  using assms
  by (simp add: RedisCache_allow_def client_incr_counter client_expire_def)

lemma counter_after_allow:
  assumes "counter r key = Some n" and "n < 2 ^ 63 - 1"
    and "n = 0 \<longrightarrow> expire_time_ok r window" and "n = 0 \<longrightarrow> 0 < window"
  shows "counter (snd (RedisCache_allow key limit window r)) key = Some (n + 1)"
proof -
  have rng: "- (2 ^ 63) \<le> n + 1 \<and> n + 1 < 2 ^ 63"
  proof (cases "live r key")
    case None
    with assms show ?thesis by (simp add: counter_def)
  next
    case (Some a)
    with assms(1) have "string2ll (fst a) = Some n"
      by (cases a) (simp add: counter_def)
    from string2ll_range [OF this] assms(2) show ?thesis by simp
  qed
  have "live (r\<lparr>keyspace := (keyspace r)(key \<mapsto>
                 (ll2string (n + 1),
                  if n + 1 = 1 then Some (clock r + window) else expiry r key))\<rparr>) key
        = Some (ll2string (n + 1), if n + 1 = 1 then Some (clock r + window) else expiry r key)"
    using assms(4) live_after_incr [of r key "ll2string (n + 1)"]
    by (simp add: live_after_write)
  then show ?thesis
    using rng
    by (simp add: RedisCache_allow_counter [OF assms(1,2,3)] counter_def string2ll_ll2string)
qed

lemma counter_fresh: "live r key = None \<Longrightarrow> counter r key = Some 0"
  by (simp add: counter_def)

lemma expiry_fresh: "live r key = None \<Longrightarrow> expiry r key = None"
  by (simp add: expiry_def)

lemma allow_fresh:
  assumes "live r key = None" and "expire_time_ok r window"
  shows "RedisCache_allow key limit window r =
           (Inr (1 \<le> limit),
            r\<lparr>keyspace := (keyspace r)(key \<mapsto> (ll2string 1, Some (clock r + window)))\<rparr>)"
  using RedisCache_allow_counter [where r = r and key = key and n = 0 and limit = limit
          and window = window] assms
  by (simp add: counter_fresh)

lemma allow_pending:
  assumes "clock r < t" and "1 \<le> c" and "c < 2 ^ 63 - 1"
  shows "RedisCache_allow key limit window
           (r\<lparr>keyspace := (keyspace r)(key \<mapsto> (ll2string c, Some t))\<rparr>) =
         (Inr (c + 1 \<le> limit),
          r\<lparr>keyspace := (keyspace r)(key \<mapsto> (ll2string (c + 1), Some t))\<rparr>)"
proof -
  let ?r = "r\<lparr>keyspace := (keyspace r)(key \<mapsto> (ll2string c, Some t))\<rparr>"
  have l: "live ?r key = Some (ll2string c, Some t)"
    using assms(1) by (simp add: live_after_write)
  have "string2ll (ll2string c) = Some c"
    using assms(2,3) by (intro string2ll_ll2string) simp_all
  with l have "counter ?r key = Some c" and "expiry ?r key = Some t"
    by (simp_all add: counter_def expiry_def)
  then show ?thesis
    using RedisCache_allow_counter [where r = ?r and key = key and n = c and limit = limit
            and window = window] assms(2,3) by simp
qed

lemma live_after_window:
  "t \<le> clock r + d \<Longrightarrow>
   live (advance d (r\<lparr>keyspace := (keyspace r)(key \<mapsto> (v, Some t))\<rparr>)) key = None"
  by (simp add: live_def advance_def)

lemma live_within_window:
  "clock r + d < t \<Longrightarrow>
   live (advance d (r\<lparr>keyspace := (keyspace r)(key \<mapsto> (v, Some t))\<rparr>)) key = Some (v, Some t)"
  by (simp add: live_def advance_def)

lemma six_rapid_calls:
  assumes "live r key = None" and "expire_time_ok r 10"
  shows "allow_repeat 6 key 5 10 r =
           ([Inr True, Inr True, Inr True, Inr True, Inr True, Inr False],
            r\<lparr>keyspace := (keyspace r)(key \<mapsto> (ll2string 6, Some (clock r + 10)))\<rparr>)"
proof -
  have six: "6 = Suc (Suc (Suc (Suc (Suc (Suc 0)))))"
    by simp
  have step: "RedisCache_allow key 5 10
                (r\<lparr>keyspace := (keyspace r)(key \<mapsto> (ll2string c, Some (clock r + 10)))\<rparr>) =
              (Inr (c + 1 \<le> 5),
               r\<lparr>keyspace := (keyspace r)(key \<mapsto> (ll2string (c + 1), Some (clock r + 10)))\<rparr>)"
    if "1 \<le> c" and "c \<le> 5" for c
    using that by (intro allow_pending) simp_all
  show ?thesis
    unfolding six
    using step [of 1] step [of 2] step [of 3] step [of 4] step [of 5]
    by (simp add: allow_fresh [OF assms])
qed

lemma live_fresh_server: "live fresh_server k = None"
  by (simp add: live_def fresh_server_def)


lemma RedisCache_allow_not_a_counter:
  "counter r key = None \<Longrightarrow> RedisCache_allow key limit window r = (Inl ResponseError, r)"
  by (auto simp: RedisCache_allow_def client_incr_def counter_def split: option.splits)

section \<open>Properties of the caches\<close>

text \<open>
  C9. The no-op cache, in any state of the world and so after any number of calls:
  \<open>get\<close> returns \<open>None\<close>, \<open>set\<close> returns and changes nothing, \<open>allow\<close> returns \<open>True\<close>;
  none of the three changes the state.
\<close>

theorem noop_cache_inert:
  "NoopCache_get key r = (Inr None, r)
   \<and> NoopCache_set key value ttl r = (Inr (), r)
   \<and> NoopCache_allow key limit window r = (Inr True, r)"
  by (simp add: NoopCache_get_def NoopCache_set_def NoopCache_allow_def)

text \<open>
  C5, as stated for every key and every window, fails. A window of \<open>2 ^ 64\<close> seconds on
  a fresh key: \<open>INCR\<close> counts 1, the server refuses the timeout, and \<open>allow\<close> raises
  \<open>ResponseError\<close> with the counter at 1 and no expiry armed. A key that holds the
  string \<open>INFO\<close>: \<open>INCR\<close> is refused and \<open>allow\<close> raises without counting.
\<close>

theorem redis_allow_refused_counterexample:
  "RedisCache_allow ''ratelimit:log_api:/batch'' 5 (2 ^ 64) fresh_server =
     (Inl ResponseError,
      fresh_server\<lparr>keyspace := [''ratelimit:log_api:/batch'' \<mapsto> (''1'', None)]\<rparr>)
   \<and> RedisCache_allow ''loglevel:a b INFO'' 5 10 info_cached = (Inl ResponseError, info_cached)"
proof -
  have "counter fresh_server ''ratelimit:log_api:/batch'' = Some 0"
    and "expiry fresh_server ''ratelimit:log_api:/batch'' = None"
    by (simp_all add: counter_fresh expiry_fresh live_fresh_server)
  moreover have "\<not> expire_time_ok fresh_server (2 ^ 64)"
    by (simp add: expire_time_ok_def)
  ultimately have 1:
    "RedisCache_allow ''ratelimit:log_api:/batch'' 5 (2 ^ 64) fresh_server =
       (Inl ResponseError,
        fresh_server\<lparr>keyspace := [''ratelimit:log_api:/batch'' \<mapsto> (''1'', None)]\<rparr>)"
    by (simp add: RedisCache_allow_expire_refused ll2string_1 fresh_server_def)
  have "live info_cached ''loglevel:a b INFO'' = Some (''INFO'', Some 60)"
    by (simp add: live_def info_cached_def fresh_server_def)
  then have "counter info_cached ''loglevel:a b INFO'' = None"
    by (simp add: counter_def string2ll_def parse_digits_def digit_of_def)
  then have 2: "RedisCache_allow ''loglevel:a b INFO'' 5 10 info_cached =
                 (Inl ResponseError, info_cached)"
    by (rule RedisCache_allow_not_a_counter)
  from 1 2 show ?thesis by simp
qed

text \<open>
  C5, amended. \<open>RedisCache.allow\<close> on a key that holds a counter \<open>n\<close> (a missing or
  expired key counts as 0) below the largest 64-bit integer, with a window the server
  accepts as a timeout whenever \<open>n = 0\<close>: the counter becomes \<open>n + 1\<close>; the key gets the
  expiry time now plus \<open>window\<close> exactly when \<open>n + 1 = 1\<close> and keeps the expiry it had
  otherwise; the result is \<open>True\<close> exactly when \<open>n + 1 \<le> limit\<close>. On a fresh key with
  limit 5 and window 10, six calls in a row return \<open>True\<close> five times and then \<open>False\<close>;
  a seventh call returns \<open>False\<close> while fewer than 10 seconds have passed and \<open>True\<close>
  once 10 seconds or more have passed.
\<close>

theorem redis_allow_fixed_window:
  "(counter r key = Some n \<and> n < 2 ^ 63 - 1 \<and> (n = 0 \<longrightarrow> expire_time_ok r window) \<longrightarrow>
      RedisCache_allow key limit window r =
        (Inr (n + 1 \<le> limit),
         r\<lparr>keyspace := (keyspace r)(key \<mapsto>
              (ll2string (n + 1),
               if n + 1 = 1 then Some (clock r + window) else expiry r key))\<rparr>)
      \<and> ((n = 0 \<longrightarrow> 0 < window) \<longrightarrow>
            counter (snd (RedisCache_allow key limit window r)) key = Some (n + 1)))
   \<and> (live r key = None \<and> expire_time_ok r 10 \<longrightarrow>
        fst (allow_repeat 6 key 5 10 r) =
          [Inr True, Inr True, Inr True, Inr True, Inr True, Inr False]
        \<and> (\<forall>d. 0 \<le> d \<and> d < 10 \<longrightarrow>
              fst (RedisCache_allow key 5 10 (advance d (snd (allow_repeat 6 key 5 10 r)))) =
                Inr False)
        \<and> (\<forall>d. 10 \<le> d \<and> expire_time_ok (advance d r) 10 \<longrightarrow>
              fst (RedisCache_allow key 5 10 (advance d (snd (allow_repeat 6 key 5 10 r)))) =
                Inr True))"
proof (intro conjI impI allI)
  assume "counter r key = Some n \<and> n < 2 ^ 63 - 1 \<and> (n = 0 \<longrightarrow> expire_time_ok r window)"
  then show "RedisCache_allow key limit window r =
        (Inr (n + 1 \<le> limit),
         r\<lparr>keyspace := (keyspace r)(key \<mapsto>
              (ll2string (n + 1),
               if n + 1 = 1 then Some (clock r + window) else expiry r key))\<rparr>)"
    by (intro RedisCache_allow_counter) simp_all
next
  assume "counter r key = Some n \<and> n < 2 ^ 63 - 1 \<and> (n = 0 \<longrightarrow> expire_time_ok r window)"
    and "n = 0 \<longrightarrow> 0 < window"
  then show "counter (snd (RedisCache_allow key limit window r)) key = Some (n + 1)"
    by (intro counter_after_allow) simp_all
next
  assume "live r key = None \<and> expire_time_ok r 10"
  then show "fst (allow_repeat 6 key 5 10 r) =
          [Inr True, Inr True, Inr True, Inr True, Inr True, Inr False]"
    by (simp add: six_rapid_calls)
next
  fix d :: int
  assume f: "live r key = None \<and> expire_time_ok r 10" and d: "0 \<le> d \<and> d < 10"
  let ?r6 = "r\<lparr>keyspace := (keyspace r)(key \<mapsto> (ll2string 6, Some (clock r + 10)))\<rparr>"
  have "advance d ?r6 =
          (advance d r)\<lparr>keyspace := (keyspace (advance d r))(key \<mapsto> (ll2string 6, Some (clock r + 10)))\<rparr>"
    by (simp add: advance_def)
  moreover have "clock (advance d r) < clock r + 10"
    using d by (simp add: advance_def)
  ultimately have "fst (RedisCache_allow key 5 10 (advance d ?r6)) = Inr False"
    using allow_pending [of "advance d r" "clock r + 10" 6 key 5 10] by simp
  then show "fst (RedisCache_allow key 5 10 (advance d (snd (allow_repeat 6 key 5 10 r)))) =
               Inr False"
    using f by (simp add: six_rapid_calls)
next
  fix d :: int
  assume f: "live r key = None \<and> expire_time_ok r 10"
    and d: "10 \<le> d \<and> expire_time_ok (advance d r) 10"
  let ?r6 = "r\<lparr>keyspace := (keyspace r)(key \<mapsto> (ll2string 6, Some (clock r + 10)))\<rparr>"
  have "live (advance d ?r6) key = None"
    using d by (simp add: live_after_window)
  moreover have "expire_time_ok (advance d ?r6) 10"
    using d by (simp add: expire_time_ok_def advance_def)
  ultimately have "fst (RedisCache_allow key 5 10 (advance d ?r6)) = Inr True"
    by (simp add: allow_fresh)
  then show "fst (RedisCache_allow key 5 10 (advance d (snd (allow_repeat 6 key 5 10 r)))) =
               Inr True"
    using f by (simp add: six_rapid_calls)
qed

theorem redis_allow_fixed_window_witness:
  "counter fresh_server ''ratelimit:log_api:/batch'' = Some 0
   \<and> (0::int) < 2 ^ 63 - 1
   \<and> expire_time_ok fresh_server 10
   \<and> RedisCache_allow ''ratelimit:log_api:/batch'' 100 10 fresh_server =
        (Inr True,
         fresh_server\<lparr>keyspace := [''ratelimit:log_api:/batch'' \<mapsto> (''1'', Some 10)]\<rparr>)
   \<and> counter (snd (RedisCache_allow ''ratelimit:log_api:/batch'' 100 10 fresh_server))
        ''ratelimit:log_api:/batch'' = Some 1
   \<and> live fresh_server ''ratelimit:log_api:/batch'' = None
   \<and> fst (allow_repeat 6 ''ratelimit:log_api:/batch'' 5 10 fresh_server) =
        [Inr True, Inr True, Inr True, Inr True, Inr True, Inr False]
   \<and> fst (RedisCache_allow ''ratelimit:log_api:/batch'' 5 10
            (advance 9 (snd (allow_repeat 6 ''ratelimit:log_api:/batch'' 5 10 fresh_server)))) =
        Inr False
   \<and> expire_time_ok (advance 10 fresh_server) 10
   \<and> fst (RedisCache_allow ''ratelimit:log_api:/batch'' 5 10
            (advance 10 (snd (allow_repeat 6 ''ratelimit:log_api:/batch'' 5 10 fresh_server)))) =
        Inr True"
proof -
  have c: "counter fresh_server ''ratelimit:log_api:/batch'' = Some 0"
    by (simp add: counter_fresh live_fresh_server)
  have e: "expiry fresh_server ''ratelimit:log_api:/batch'' = None"
    by (simp add: expiry_fresh live_fresh_server)
  have k: "clock fresh_server = 0" "keyspace fresh_server = Map.empty"
    by (simp_all add: fresh_server_def)
  have t: "expire_time_ok fresh_server 10" "expire_time_ok (advance 10 fresh_server) 10"
    by (simp_all add: expire_time_ok_def advance_def fresh_server_def)
  show ?thesis
    using redis_allow_fixed_window [where r = fresh_server
            and key = "''ratelimit:log_api:/batch''" and n = 0 and limit = 100 and window = 10]
          redis_allow_fixed_window [where r = fresh_server
            and key = "''ratelimit:log_api:/batch''" and n = 0 and limit = 5 and window = 10]
    by (simp add: c e k t live_fresh_server ll2string_1 cong: conj_cong)
qed

section \<open>Properties of \<open>LogAnalyser\<close>\<close>

text \<open>
  C10. An analyser built with \<open>cache = None\<close>: \<open>process_line\<close> calls the parser and
  hands its outcome on as it is, a raised exception included. The parser call is the
  only call made, and neither the server nor the analyser changes.
\<close>

theorem process_line_without_cache:
  assumes "cache (self s) = None"
  shows "process_line h line s =
           (parser (self s) line, s\<lparr>calls := calls s @ [ParserCall line]\<rparr>)"
  using assms
  by (simp add: process_line_def process_line_miss_def Let_def split: sum.splits)

theorem process_line_without_cache_witness:
  "cache (self (plain_system None)) = None
   \<and> process_line (\<lambda>l. l) ''a b INFO'' (plain_system None) =
       (Inr (Some ''INFO''), (plain_system None)\<lparr>calls := [ParserCall ''a b INFO'']\<rparr>)
   \<and> process_line (\<lambda>l. l) ''garbage'' (plain_system None) =
       (Inl IndexError, (plain_system None)\<lparr>calls := [ParserCall ''garbage'']\<rparr>)"
  using process_line_without_cache [of "plain_system None" "\<lambda>l. l" "''a b INFO''"]
        process_line_without_cache [of "plain_system None" "\<lambda>l. l" "''garbage''"]
  by (simp add: plain_system_def LogAnalyser_init_def plain_eval)

lemma process_line_miss_self: "self (snd (process_line_miss key line s)) = self s"
  by (simp add: process_line_miss_def Let_def split: sum.splits option.splits prod.splits)

lemma process_line_self: "self (snd (process_line h line s)) = self s"
  by (simp add: process_line_def Let_def process_line_miss_self
           split: sum.splits option.splits prod.splits)

subsection \<open>The paths of \<open>process_line\<close> through a cache\<close>

text \<open>
  When \<open>cache.get\<close> returns a value for the key of the line, \<open>process_line\<close> returns
  that value and the lookup is the only call made. When \<open>cache.get\<close> returns \<open>None\<close>,
  the parser is called; an exception of the parser leaves the method; a level it
  returns is passed to \<open>cache.set\<close> with the key and the configured time to live, and
  is the result when \<open>cache.set\<close> returns, while an exception of \<open>cache.set\<close> leaves
  the method.
\<close>

lemma process_line_paths:
  assumes "cache (self s) = Some c"
  shows "(cache_get c (line_cache_key h line) (server s) = (Inr (Some v), r1) \<longrightarrow>
            process_line h line s =
              (Inr (Some v),
               s\<lparr>server := r1, calls := calls s @ [CacheGet (line_cache_key h line)]\<rparr>))
       \<and> (cache_get c (line_cache_key h line) (server s) = (Inr None, r1)
            \<and> parser (self s) line = Inr level
            \<and> cache_set c (line_cache_key h line) level (cache_ttl (self s)) r1 = (Inr (), r2) \<longrightarrow>
            process_line h line s =
              (Inr level,
               s\<lparr>server := r2,
                 calls := calls s @ [CacheGet (line_cache_key h line), ParserCall line,
                                     CacheSet (line_cache_key h line) level (cache_ttl (self s))]\<rparr>))"
  using assms by (simp add: process_line_def process_line_miss_def Let_def)

lemma process_line_parser_raises:
  assumes "cache (self s) = Some c"
    and "cache_get c (line_cache_key h line) (server s) = (Inr None, r1)"
    and "parser (self s) line = Inl e"
  shows "process_line h line s =
           (Inl e,
            s\<lparr>server := r1,
              calls := calls s @ [CacheGet (line_cache_key h line), ParserCall line]\<rparr>)"
  using assms by (simp add: process_line_def process_line_miss_def Let_def)

lemma process_line_set_raises:
  assumes "cache (self s) = Some c"
    and "cache_get c (line_cache_key h line) (server s) = (Inr None, r1)"
    and "parser (self s) line = Inr level"
    and "cache_set c (line_cache_key h line) level (cache_ttl (self s)) r1 = (Inl e, r2)"
  shows "process_line h line s =
           (Inl e,
            s\<lparr>server := r2,
              calls := calls s @ [CacheGet (line_cache_key h line), ParserCall line,
                                  CacheSet (line_cache_key h line) level (cache_ttl (self s))]\<rparr>)"
  using assms by (simp add: process_line_def process_line_miss_def Let_def)

text \<open>
  \<open>NoopCache.set\<close> always returns. \<open>RedisCache.set\<close> returns exactly when the level is
  a string and the server accepts the time to live.
\<close>

lemma NoopCache_set_returns: "cache_set NoopCache key level ttl r = (Inr (), r)"
  by (simp add: cache_set_def NoopCache_set_def)

lemma NoopCache_get_misses: "cache_get NoopCache key r = (Inr UNKNOWN, r)"
  by (simp add: cache_get_def NoopCache_get_def)

lemma RedisCache_set_outcome:
  "cache_set RedisCache key level ttl r =
     (case level of
        None \<Rightarrow> (Inl DataError, r)
      | Some v \<Rightarrow>
          if setex_time_ok r ttl
          then (Inr (), r\<lparr>keyspace := (keyspace r)(key \<mapsto> (v, Some (clock r + ttl)))\<rparr>)
          else (Inl ResponseError, r))"
  by (simp add: cache_set_def RedisCache_set_def client_setex_def split: option.splits)

lemma RedisCache_set_UNKNOWN: "cache_set RedisCache key UNKNOWN ttl r = (Inl DataError, r)"
  by (simp add: cache_set_def RedisCache_set_def client_setex_def)

lemma process_line_INFO_miss_then_hit:
  "cache (self (plain_system (Some RedisCache))) = Some RedisCache
   \<and> cache_get RedisCache (line_cache_key (\<lambda>l. l) ''a b INFO'') fresh_server =
        (Inr None, fresh_server)
   \<and> parser (self (plain_system (Some RedisCache))) ''a b INFO'' = Inr (Some ''INFO'')
   \<and> cache_set RedisCache (line_cache_key (\<lambda>l. l) ''a b INFO'') (Some ''INFO'') 60 fresh_server =
        (Inr (), info_cached)
   \<and> process_line (\<lambda>l. l) ''a b INFO'' (plain_system (Some RedisCache)) =
        (Inr (Some ''INFO''),
         (plain_system (Some RedisCache))
           \<lparr>server := info_cached,
            calls := [CacheGet ''loglevel:a b INFO'', ParserCall ''a b INFO'',
                      CacheSet ''loglevel:a b INFO'' (Some ''INFO'') 60]\<rparr>)
   \<and> cache_get RedisCache (line_cache_key (\<lambda>l. l) ''a b INFO'') info_cached =
        (Inr (Some ''INFO''), info_cached)
   \<and> process_line (\<lambda>l. l) ''a b INFO''
        ((plain_system (Some RedisCache))\<lparr>server := info_cached\<rparr>) =
        (Inr (Some ''INFO''),
         (plain_system (Some RedisCache))
           \<lparr>server := info_cached, calls := [CacheGet ''loglevel:a b INFO'']\<rparr>)"
proof -
  let ?s = "plain_system (Some RedisCache)"
  let ?s' = "?s\<lparr>server := info_cached\<rparr>"
  have c: "cache (self ?s) = Some RedisCache" and c': "cache (self ?s') = Some RedisCache"
    by (simp_all add: plain_system_fields)
  have miss: "process_line (\<lambda>l. l) ''a b INFO'' ?s =
        (Inr (Some ''INFO''),
         ?s\<lparr>server := info_cached,
            calls := [CacheGet ''loglevel:a b INFO'', ParserCall ''a b INFO'',
                      CacheSet ''loglevel:a b INFO'' (Some ''INFO'') 60]\<rparr>)"
    using process_line_paths [OF c, of "\<lambda>l. l" "''a b INFO''" _ fresh_server
            "Some ''INFO''" info_cached]
    by (simp add: plain_system_fields key_a_b_INFO parse_a_b_INFO get_fresh set_fresh_INFO)
  have hit: "process_line (\<lambda>l. l) ''a b INFO'' ?s' =
        (Inr (Some ''INFO''),
         ?s\<lparr>server := info_cached, calls := [CacheGet ''loglevel:a b INFO'']\<rparr>)"
    using process_line_paths [OF c', of "\<lambda>l. l" "''a b INFO''" "''INFO''" info_cached]
    by (simp add: plain_system_fields key_a_b_INFO get_info_cached)
  show ?thesis
    using miss hit
    by (simp add: plain_system_fields key_a_b_INFO parse_a_b_INFO get_fresh set_fresh_INFO
          get_info_cached)
qed

lemma key_DEBUG_boot:
  "line_cache_key (\<lambda>l. l) ''2024-01-01 svcA DEBUG boot'' = ''loglevel:2024-01-01 svcA DEBUG boot''"
  by (simp add: line_cache_key_def)

lemma parse_DEBUG_boot: "PlainTextParser_parse_level ''2024-01-01 svcA DEBUG boot'' = Inr UNKNOWN"
  by (simp add: plain_eval)

text \<open>
  C3 at the line \<open>2024-01-01 svcA DEBUG boot\<close>, through the Redis cache on a server
  with no key: \<open>cache.get\<close> misses, the parser returns UNKNOWN, \<open>cache.set\<close> is called
  with it and raises \<open>DataError\<close>, and \<open>process_line\<close> raises instead of returning
  UNKNOWN. Through the no-op cache the same call returns UNKNOWN.
\<close>

theorem process_line_miss_unknown_raises:
  "cache_get RedisCache ''loglevel:2024-01-01 svcA DEBUG boot'' fresh_server =
     (Inr UNKNOWN, fresh_server)
   \<and> PlainTextParser_parse_level ''2024-01-01 svcA DEBUG boot'' = Inr UNKNOWN
   \<and> process_line (\<lambda>l. l) ''2024-01-01 svcA DEBUG boot'' (plain_system (Some RedisCache)) =
       (Inl DataError,
        (plain_system (Some RedisCache))
          \<lparr>calls := [CacheGet ''loglevel:2024-01-01 svcA DEBUG boot'',
                     ParserCall ''2024-01-01 svcA DEBUG boot'',
                     CacheSet ''loglevel:2024-01-01 svcA DEBUG boot'' UNKNOWN 60]\<rparr>)
   \<and> process_line (\<lambda>l. l) ''2024-01-01 svcA DEBUG boot'' (plain_system (Some NoopCache)) =
       (Inr UNKNOWN,
        (plain_system (Some NoopCache))
          \<lparr>calls := [CacheGet ''loglevel:2024-01-01 svcA DEBUG boot'',
                     ParserCall ''2024-01-01 svcA DEBUG boot'',
                     CacheSet ''loglevel:2024-01-01 svcA DEBUG boot'' UNKNOWN 60]\<rparr>)"
proof -
  let ?L = "''2024-01-01 svcA DEBUG boot''"
  have r: "process_line (\<lambda>l. l) ?L (plain_system (Some RedisCache)) =
       (Inl DataError,
        (plain_system (Some RedisCache))
          \<lparr>calls := [CacheGet ''loglevel:2024-01-01 svcA DEBUG boot'', ParserCall ?L,
                     CacheSet ''loglevel:2024-01-01 svcA DEBUG boot'' UNKNOWN 60]\<rparr>)"
    using process_line_set_raises [of "plain_system (Some RedisCache)" RedisCache "\<lambda>l. l" ?L
            fresh_server UNKNOWN DataError fresh_server]
    by (simp add: plain_system_fields key_DEBUG_boot parse_DEBUG_boot get_fresh
          RedisCache_set_UNKNOWN)
  have n: "process_line (\<lambda>l. l) ?L (plain_system (Some NoopCache)) =
       (Inr UNKNOWN,
        (plain_system (Some NoopCache))
          \<lparr>calls := [CacheGet ''loglevel:2024-01-01 svcA DEBUG boot'', ParserCall ?L,
                     CacheSet ''loglevel:2024-01-01 svcA DEBUG boot'' UNKNOWN 60]\<rparr>)"
    using process_line_paths [of "plain_system (Some NoopCache)" NoopCache "\<lambda>l. l" ?L
            _ fresh_server UNKNOWN fresh_server]
    by (simp add: plain_system_fields key_DEBUG_boot parse_DEBUG_boot NoopCache_get_misses
          NoopCache_set_returns)
  from r n show ?thesis
    by (simp add: get_fresh parse_DEBUG_boot)
qed

subsection \<open>The same line twice\<close>

lemma RedisCache_get_live: "cache_get RedisCache key r = (Inr (map_option fst (live r key)), r)"
  by (simp add: cache_get_def RedisCache_get_def client_get_def)

text \<open>
  A recognised level is cached: after a miss on a line whose level is INFO, WARNING or
  ERROR, a second call on the same line, made before the time to live has passed, is
  answered by \<open>cache.get\<close> alone.
\<close>

lemma recognised_level_cached:
  assumes c: "cache (self s) = Some RedisCache"
    and fresh: "live (server s) (line_cache_key h line) = None"
    and p: "parser (self s) line = Inr (Some v)"
    and ttl: "setex_time_ok (server s) (cache_ttl (self s))"
    and d: "0 \<le> d" "d < cache_ttl (self s)"
  defines "key \<equiv> line_cache_key h line"
  defines "r2 \<equiv> (server s)\<lparr>keyspace := (keyspace (server s))
                     (key \<mapsto> (v, Some (clock (server s) + cache_ttl (self s))))\<rparr>"
  defines "s1 \<equiv> s\<lparr>server := r2,
                    calls := calls s @ [CacheGet key, ParserCall line,
                                        CacheSet key (Some v) (cache_ttl (self s))]\<rparr>"
  shows "process_line h line s = (Inr (Some v), s1)"
    and "process_line h line (s1\<lparr>server := advance d r2\<rparr>) =
           (Inr (Some v), s1\<lparr>server := advance d r2, calls := calls s1 @ [CacheGet key]\<rparr>)"
proof -
  show "process_line h line s = (Inr (Some v), s1)"
    using c fresh p ttl
    by (simp add: process_line_def process_line_miss_def Let_def RedisCache_get_live
          cache_set_def RedisCache_set_def client_setex_def s1_def r2_def key_def)
  have "live (advance d r2) key = Some (v, Some (clock (server s) + cache_ttl (self s)))"
    using d by (simp add: live_def advance_def r2_def)
  then show "process_line h line (s1\<lparr>server := advance d r2\<rparr>) =
           (Inr (Some v), s1\<lparr>server := advance d r2, calls := calls s1 @ [CacheGet key]\<rparr>)"
    using c
    by (simp add: process_line_def Let_def RedisCache_get_live s1_def key_def)
qed

text \<open>
  An UNKNOWN level is not: it is \<open>None\<close>, which the Redis client refuses to store and
  which \<open>process_line\<close> reads as a miss. Whenever \<open>process_line\<close> returns UNKNOWN
  through a cache it has called the parser.
\<close>

lemma unknown_level_never_cached:
  assumes "cache (self s) = Some RedisCache"
    and "live (server s) (line_cache_key h line) = None"
    and "parser (self s) line = Inr UNKNOWN"
  shows "process_line h line s =
           (Inl DataError,
            s\<lparr>calls := calls s @ [CacheGet (line_cache_key h line), ParserCall line,
                                  CacheSet (line_cache_key h line) UNKNOWN (cache_ttl (self s))]\<rparr>)"
  using process_line_set_raises [OF assms(1) _ assms(3), of h "server s" DataError "server s"] assms(2)
  by (simp add: RedisCache_set_UNKNOWN RedisCache_get_live)

lemma unknown_result_means_parser_called:
  assumes "cache (self s) = Some c" and "process_line h line s = (Inr UNKNOWN, s')"
  shows "calls s' = calls s @ [CacheGet (line_cache_key h line), ParserCall line,
                              CacheSet (line_cache_key h line) UNKNOWN (cache_ttl (self s))]"
  using assms
  by (auto simp: process_line_def process_line_miss_def Let_def
           split: prod.splits sum.splits option.splits)

text \<open>
  C4 at the line \<open>a b DEBUG\<close>, twice through the Redis cache: the first call raises
  \<open>DataError\<close> out of \<open>cache.set\<close> instead of returning UNKNOWN and stores nothing; the
  second call looks the key up, misses, calls the parser again and raises again.
\<close>

theorem unknown_level_parsed_twice:
  "process_line (\<lambda>l. l) ''a b DEBUG'' (plain_system (Some RedisCache)) =
     (Inl DataError,
      (plain_system (Some RedisCache))
        \<lparr>calls := [CacheGet ''loglevel:a b DEBUG'', ParserCall ''a b DEBUG'',
                   CacheSet ''loglevel:a b DEBUG'' UNKNOWN 60]\<rparr>)
   \<and> process_line (\<lambda>l. l) ''a b DEBUG''
       ((plain_system (Some RedisCache))
          \<lparr>calls := [CacheGet ''loglevel:a b DEBUG'', ParserCall ''a b DEBUG'',
                     CacheSet ''loglevel:a b DEBUG'' UNKNOWN 60]\<rparr>) =
     (Inl DataError,
      (plain_system (Some RedisCache))
        \<lparr>calls := [CacheGet ''loglevel:a b DEBUG'', ParserCall ''a b DEBUG'',
                   CacheSet ''loglevel:a b DEBUG'' UNKNOWN 60,
                   CacheGet ''loglevel:a b DEBUG'', ParserCall ''a b DEBUG'',
                   CacheSet ''loglevel:a b DEBUG'' UNKNOWN 60]\<rparr>)"
proof -
  let ?s = "plain_system (Some RedisCache)"
  let ?s1 = "?s\<lparr>calls := [CacheGet ''loglevel:a b DEBUG'', ParserCall ''a b DEBUG'',
                   CacheSet ''loglevel:a b DEBUG'' UNKNOWN 60]\<rparr>"
  have 1: "process_line (\<lambda>l. l) ''a b DEBUG'' ?s = (Inl DataError, ?s1)"
    using unknown_level_never_cached [of ?s "\<lambda>l. l" "''a b DEBUG''"]
    by (simp add: plain_system_fields key_a_b_DEBUG parse_a_b_DEBUG live_fresh_server)
  have 2: "process_line (\<lambda>l. l) ''a b DEBUG'' ?s1 =
     (Inl DataError,
      ?s\<lparr>calls := [CacheGet ''loglevel:a b DEBUG'', ParserCall ''a b DEBUG'',
                   CacheSet ''loglevel:a b DEBUG'' UNKNOWN 60,
                   CacheGet ''loglevel:a b DEBUG'', ParserCall ''a b DEBUG'',
                   CacheSet ''loglevel:a b DEBUG'' UNKNOWN 60]\<rparr>)"
    using unknown_level_never_cached [of ?s1 "\<lambda>l. l" "''a b DEBUG''"]
    by (simp add: plain_system_fields key_a_b_DEBUG parse_a_b_DEBUG live_fresh_server)
  from 1 2 show ?thesis by simp
qed

section \<open>Properties of the tallies\<close>


lemma sum_update:
  "sum_list (map snd (AList.update k v d)) =
     sum_list (map snd d) + v - (case map_of d k of None \<Rightarrow> 0 | Some n \<Rightarrow> (n::int))"
  by (induction d) (auto)

lemma sum_add_one: "sum_list (map snd (add_one d k)) = sum_list (map snd d) + 1"
  by (simp add: add_one_def sum_update count_of_def split: option.splits)

lemma distinct_add_one: "distinct (map fst d) \<Longrightarrow> distinct (map fst (add_one d k))"
  by (simp add: add_one_def distinct_update)

lemma sum_foldl_add_one:
  "sum_list (map snd (foldl add_one d ks)) = sum_list (map snd d) + int (length ks)"
  by (induction ks arbitrary: d) (simp_all add: sum_add_one)

lemma distinct_foldl_add_one:
  "distinct (map fst d) \<Longrightarrow> distinct (map fst (foldl add_one d ks))"
  by (induction ks arbitrary: d) (simp_all add: distinct_add_one)

lemma process_line_snd_self:
  "process_line h line s = (res, s1) \<Longrightarrow> self s1 = self s"
  using process_line_self [of h line s] by simp

lemma process_lines_loop_sum:
  "process_lines_loop h lines s = (Inr u, s') \<Longrightarrow>
     sum_list (map snd (counts (self s'))) =
       sum_list (map snd (counts (self s))) + int (length lines)"
proof (induction lines arbitrary: s)
  case Nil
  then show ?case by simp
next
  case (Cons line lines)
  obtain res s1 where p: "process_line h line s = (res, s1)"
    by (cases "process_line h line s")
  then obtain level where r: "res = Inr level"
    using Cons.prems by (cases res) simp_all
  let ?s2 = "s1\<lparr>self := (self s1)\<lparr>counts := add_one (counts (self s1)) level\<rparr>\<rparr>"
  have "process_lines_loop h lines ?s2 = (Inr u, s')"
    using Cons.prems p r by simp
  then have "sum_list (map snd (counts (self s'))) =
      sum_list (map snd (counts (self ?s2))) + int (length lines)"
    by (rule Cons.IH)
  moreover have "self s1 = self s"
    using p by (rule process_line_snd_self)
  ultimately show ?case
    by (simp add: sum_add_one)
qed

text \<open>
  C8. A batch of N lines. The tally the \<open>/batch\<close> endpoint builds from the N levels it
  gathered has counts that sum to N (and one entry per level). The same holds of the
  tally \<open>process_lines\<close> returns from a fresh analyser, whenever it returns one.
\<close>

theorem batch_tally_sums_to_batch_size:
  "sum_list (map snd (batch_counts levels)) = int (length levels)
   \<and> distinct (map fst (batch_counts levels))
   \<and> (counts (self s) = [] \<and> process_lines h lines s = (Inr tally, s') \<longrightarrow>
        sum_list (map snd tally) = int (length lines))"
proof -
  have "sum_list (map snd tally) = int (length lines)"
    if f: "counts (self s) = []" and p: "process_lines h lines s = (Inr tally, s')"
  proof -
    obtain res s1 where l: "process_lines_loop h lines s = (res, s1)"
      by (cases "process_lines_loop h lines s")
    then have "res = Inr () \<and> counts (self s1) = tally"
      using p by (cases res) (auto simp: process_lines_def)
    then show ?thesis
      using process_lines_loop_sum [of h lines s "()" s1] l f by simp
  qed
  then show ?thesis
    by (simp add: batch_counts_def sum_foldl_add_one distinct_foldl_add_one)
qed


theorem batch_tally_sums_to_batch_size_witness:
  "sum_list (map snd (batch_counts [Some ''INFO'', Some ''ERROR'', UNKNOWN])) = 3
   \<and> counts (self (plain_system None)) = []
   \<and> fst (process_lines (\<lambda>l. l) three_lines (plain_system None)) = Inr three_tally
   \<and> sum_list (map snd three_tally) = int (length three_lines)"
  using batch_tally_sums_to_batch_size [of "[Some ''INFO'', Some ''ERROR'', UNKNOWN]"
          "plain_system None" "\<lambda>l. l" three_lines three_tally
          "(plain_system None)
             \<lparr>self := (self (plain_system None))\<lparr>counts := three_tally\<rparr>,
              calls := map ParserCall three_lines\<rparr>"]
  by (simp add: process_three_lines plain_system_fields length_three_lines three_tally_def)

text \<open>
  The batch of the specification's example ends with the line \<open>garbage\<close>: the exception
  of the parser leaves \<open>process_lines\<close> and no tally is returned.
\<close>

lemma process_lines_garbage:
  "fst (process_lines (\<lambda>l. l)
          [''2024-01-01 svcA INFO start'', ''2024-01-01 svcA ERROR fail'', ''garbage'']
          (plain_system None)) = Inl IndexError"
  by (simp add: process_lines_def process_line_def process_line_miss_def plain_system_fields
        plain_eval)


lemma process_line_miss_counts:
  "process_line_miss key line (s\<lparr>self := (self s)\<lparr>counts := c\<rparr>\<rparr>) =
     (fst (process_line_miss key line s),
      (snd (process_line_miss key line s))\<lparr>self := (self s)\<lparr>counts := c\<rparr>\<rparr>)"
  by (simp add: process_line_miss_def Let_def split: sum.splits option.splits prod.splits)









end
